theory Spec2Isabelle
  imports Main "HOL-Library.Sublist"
begin

section \<open>Python strings\<close>

text \<open>
  A Python \<open>str\<close> is modelled as a \<open>string\<close>: a list of characters, each a code point
  below 256.  The functions of this section are the methods of \<open>str\<close> that the agents
  call: \<open>strip\<close>, \<open>split('\n')\<close>, \<open>'\n'.join\<close>, \<open>startswith\<close> (which is \<open>prefix\<close>)
  and the slice \<open>s[:n]\<close> (which is \<open>take n\<close>).
\<close>

abbreviation nl :: char where
  "nl \<equiv> CHR 0x0A"

definition is_space :: "char \<Rightarrow> bool" where
  \<comment> \<open>\<open>str.isspace\<close> on one code point below 256: tab to carriage return, the four
      separators 0x1C..0x1F, the space, NEL (0x85) and the no-break space (0xA0).\<close>
  "is_space c =
     (let n = (of_char c :: nat)
      in (9 \<le> n \<and> n \<le> 13) \<or> (28 \<le> n \<and> n \<le> 31) \<or> n = 32 \<or> n = 133 \<or> n = 160)"

definition lstrip :: "string \<Rightarrow> string" where
  "lstrip s = dropWhile is_space s"

definition rstrip :: "string \<Rightarrow> string" where
  "rstrip s = rev (dropWhile is_space (rev s))"

definition strip :: "string \<Rightarrow> string" where
  "strip s = rstrip (lstrip s)"

fun split_on :: "char \<Rightarrow> string \<Rightarrow> string list" where
  \<comment> \<open>\<open>s.split(sep)\<close> for a separator of one character: never empty, the empty
      string gives one empty piece.\<close>
  "split_on sep [] = [[]]"
| "split_on sep (c # cs) =
     (if c = sep then [] # split_on sep cs
      else (case split_on sep cs of
              [] \<Rightarrow> [[c]]
            | l # ls \<Rightarrow> (c # l) # ls))"

abbreviation split_nl :: "string \<Rightarrow> string list" where
  \<comment> \<open>\<open>s.split('\n')\<close>\<close>
  "split_nl \<equiv> split_on nl"

fun join_nl :: "string list \<Rightarrow> string" where
  \<comment> \<open>\<open>'\n'.join(parts)\<close>\<close>
  "join_nl [] = []"
| "join_nl [p] = p"
| "join_nl (p # q # ps) = p @ nl # join_nl (q # ps)"

section \<open>The marker pattern\<close>

text \<open>
  \<open>re.match(r"\*\*(.+?)\*\*: (.*)", line)\<close> anchors at the start of the line.  After the
  two opening stars the lazy group takes the shortest non-empty run of characters other
  than a newline that is followed by \<open>**: \<close>; the greedy group takes the rest of the line
  up to a newline.  The result is the pair of groups, or \<open>None\<close> for no match.
\<close>

fun scan_speaker :: "string \<Rightarrow> string \<Rightarrow> (string \<times> string) option" where
  "scan_speaker acc [] = None"
| "scan_speaker acc (c # cs) =
     (if acc \<noteq> [] \<and> prefix ''**: '' (c # cs)
        then Some (rev acc, takeWhile (\<lambda>x. x \<noteq> nl) (drop 4 (c # cs)))
      else if c = nl then None
      else scan_speaker (c # acc) cs)"

definition re_match :: "string \<Rightarrow> (string \<times> string) option" where
  "re_match line =
     (if prefix ''**'' line then scan_speaker [] (drop 2 line) else None)"

section \<open>Python values and exceptions\<close>

text \<open>
  What \<open>yaml.safe_load\<close> and a JSON body give, and what a responder hands back: \<open>None\<close>,
  booleans, integers, strings, lists and dictionaries with string keys.  Floating point
  numbers and timestamps are left out; no agent reads one.
\<close>

datatype yaml =
    YNone
  | YBool bool
  | YInt int
  | YStr string
  | YList "yaml list"
  | YDict "(string \<times> yaml) list"

datatype exn =
    FileNotFoundError
  | FileExistsError
  | NotADirectoryError
  | IsADirectoryError
  | YAMLError string
  | KeyError string
  | IndexError
  | TypeError
  | AttributeError
  | APIError string
  | LibraryError string

text \<open>
  \<open>APIError\<close> is \<open>openai.APIError\<close> with its subclasses (connection, timeout and status
  errors); \<open>LibraryError\<close> is any other \<open>Exception\<close> raised inside a library call.
\<close>

definition and_then :: "exn + 'a \<Rightarrow> ('a \<Rightarrow> exn + 'b) \<Rightarrow> exn + 'b" where
  \<comment> \<open>sequencing: the first exception raised ends the computation\<close>
  "and_then m f = (case m of Inl e \<Rightarrow> Inl e | Inr x \<Rightarrow> f x)"

fun truthy :: "yaml \<Rightarrow> bool" where
  \<comment> \<open>the truth value Python gives an object in \<open>if x:\<close> and \<open>not x\<close>\<close>
  "truthy YNone = False"
| "truthy (YBool b) = b"
| "truthy (YInt i) = (i \<noteq> 0)"
| "truthy (YStr s) = (s \<noteq> [])"
| "truthy (YList xs) = (xs \<noteq> [])"
| "truthy (YDict kvs) = (kvs \<noteq> [])"

fun fstr :: "(yaml \<Rightarrow> string) \<Rightarrow> yaml \<Rightarrow> string" where
  \<comment> \<open>\<open>f"{v}"\<close>: a string is inserted as it is; the text of any other value is Python's
      \<open>format\<close>, a parameter \<open>fmt\<close> of the model.\<close>
  "fstr fmt (YStr s) = s"
| "fstr fmt v = fmt v"

fun getitem :: "yaml \<Rightarrow> string \<Rightarrow> exn + yaml" where
  \<comment> \<open>\<open>obj[key]\<close> for a string key\<close>
  "getitem (YDict kvs) k = (case map_of kvs k of None \<Rightarrow> Inl (KeyError k) | Some v \<Rightarrow> Inr v)"
| "getitem v k = Inl TypeError"

fun getitem0 :: "yaml \<Rightarrow> exn + yaml" where
  \<comment> \<open>\<open>obj[0]\<close>; the keys of a dictionary are strings, so \<open>0\<close> is never among them\<close>
  "getitem0 (YList xs) = (case xs of [] \<Rightarrow> Inl IndexError | x # _ \<Rightarrow> Inr x)"
| "getitem0 (YStr s) = (case s of [] \<Rightarrow> Inl IndexError | c # _ \<Rightarrow> Inr (YStr [c]))"
| "getitem0 (YDict kvs) = Inl (KeyError ''0'')"
| "getitem0 v = Inl TypeError"

fun dict_get :: "yaml \<Rightarrow> string \<Rightarrow> yaml \<Rightarrow> exn + yaml" where
  \<comment> \<open>\<open>obj.get(key, default)\<close>; only a dictionary has the method\<close>
  "dict_get (YDict kvs) k d = Inr (case map_of kvs k of None \<Rightarrow> d | Some v \<Rightarrow> v)"
| "dict_get v k d = Inl AttributeError"

fun slice50 :: "yaml \<Rightarrow> exn + yaml" where
  \<comment> \<open>\<open>message[:50]\<close>\<close>
  "slice50 (YStr s) = Inr (YStr (take 50 s))"
| "slice50 (YList xs) = Inr (YList (take 50 xs))"
| "slice50 v = Inl TypeError"

section \<open>The turn parser of DeepAgent\<close>

datatype role = User | Assistant

record message =
  role :: role
  content :: string

type_synonym parse_state = "message list \<times> string list \<times> role"

definition flush :: "parse_state \<Rightarrow> message list" where
  \<comment> \<open>\<open>if current_msg_parts: messages.append({...})\<close>\<close>
  "flush st =
     (case st of (messages, current_msg_parts, current_role) \<Rightarrow>
        if current_msg_parts \<noteq> []
          then messages @ [\<lparr>role = current_role, content = strip (join_nl current_msg_parts)\<rparr>]
        else messages)"

definition role_of :: "yaml \<Rightarrow> string \<Rightarrow> role" where
  \<comment> \<open>\<open>"assistant" if speaker == self.name else "user"\<close>; \<open>self.name\<close> equals a captured
      speaker only when it is that string\<close>
  "role_of self_name speaker = (if YStr speaker = self_name then Assistant else User)"

definition parse_step :: "yaml \<Rightarrow> parse_state \<Rightarrow> string \<Rightarrow> parse_state" where
  \<comment> \<open>one iteration of \<open>for line in lines\<close>; \<open>self_name\<close> is \<open>self.name\<close>\<close>
  "parse_step self_name st line =
     (case st of (messages, current_msg_parts, current_role) \<Rightarrow>
        if strip line = [] then st
        else (case re_match line of
                Some (speaker, rest) \<Rightarrow>
                  (flush st, [rest], role_of self_name speaker)
              | None \<Rightarrow> (messages, current_msg_parts @ [line], current_role)))"

definition parse_history :: "yaml \<Rightarrow> string \<Rightarrow> message list" where
  \<comment> \<open>\<open>DeepAgent._parse_history\<close>\<close>
  "parse_history self_name history =
     flush (foldl (parse_step self_name) ([], [], User) (split_nl history))"

section \<open>The log and the cycle of BaseAgent\<close>

datatype event =
    Git "string list"
  | Generate string
  | Append string

record world =
  log :: "string option"
  trace :: "event list"

text \<open>
  \<open>log\<close> is the content of the log file, \<open>None\<close> while the file does not exist.  \<open>trace\<close>
  records, in order, every git command run, every call of \<open>generate_response\<close> (with the
  history passed) and every entry written by \<open>append_to_log\<close>.  What a git command does
  to the log file is a parameter \<open>git\<close>: from the arguments and the file before to the file
  after.  Its exit status is not modelled: \<open>_run_git_command\<close> catches the failure of a
  command and no caller reads what it returns.
\<close>

definition run_git_command ::
  "(string list \<Rightarrow> string option \<Rightarrow> string option) \<Rightarrow> string list \<Rightarrow> world \<Rightarrow> world" where
  "run_git_command git args w = w\<lparr>log := git args (log w), trace := trace w @ [Git args]\<rparr>"

definition sync_repo ::
  "(string list \<Rightarrow> string option \<Rightarrow> string option) \<Rightarrow> world \<Rightarrow> world" where
  "sync_repo git w =
     run_git_command git [''stash'', ''pop'']
       (run_git_command git [''pull'', ''--rebase'']
          (run_git_command git [''stash''] w))"

definition read_log :: "world \<Rightarrow> string" where
  "read_log w = (case log w of None \<Rightarrow> [] | Some text \<Rightarrow> text)"

definition marker :: "string \<Rightarrow> string" where
  \<comment> \<open>\<open>f"**{self.name}**"\<close>, for the text of the name\<close>
  "marker name = ''**'' @ name @ ''**''"

definition entry :: "string \<Rightarrow> string \<Rightarrow> string" where
  \<comment> \<open>\<open>f"\n\n**{self.name}**: {message}\n"\<close>, for the texts of name and message\<close>
  "entry name message = [nl, nl] @ marker name @ '': '' @ message @ [nl]"

definition append_to_log :: "string \<Rightarrow> string \<Rightarrow> world \<Rightarrow> world" where
  "append_to_log name message w =
     w\<lparr>log := Some (read_log w @ entry name message),
       trace := trace w @ [Append (entry name message)]\<rparr>"

definition written :: "(string \<times> string) list \<Rightarrow> string" where
  \<comment> \<open>the log file after \<open>append_to_log\<close> has run once for each pair of a name and a
      message, in order, starting without a file\<close>
  "written es =
     read_log (foldl (\<lambda>w e. append_to_log (fst e) (snd e) w) \<lparr>log = None, trace = []\<rparr> es)"

definition path_name :: "string \<Rightarrow> string" where
  \<comment> \<open>\<open>self.log_file.name\<close>: the last component of the configured path, which has one
      in any configuration that names a file (for an empty value Python would give the name
      of the root directory)\<close>
  "path_name p =
     (case filter (\<lambda>c. c \<noteq> [] \<and> c \<noteq> ''.'') (split_on (CHR ''/'') p) of
        [] \<Rightarrow> []
      | c # cs \<Rightarrow> last (c # cs))"

definition commit_and_push ::
  "(string list \<Rightarrow> string option \<Rightarrow> string option) \<Rightarrow> (yaml \<Rightarrow> string) \<Rightarrow>
     string \<Rightarrow> string \<Rightarrow> yaml \<Rightarrow> world \<Rightarrow> exn option \<times> world" where
  \<comment> \<open>the slice \<open>message[:50]\<close> is taken after \<open>git add\<close> has run\<close>
  "commit_and_push git fmt name log_path message w =
     (let w1 = run_git_command git [''add'', path_name log_path] w
      in case slice50 message of
           Inl e \<Rightarrow> (Some e, w1)
         | Inr m \<Rightarrow>
             (None,
              run_git_command git [''push'']
                (run_git_command git
                   [''commit'', ''-m'', name @ '': '' @ fstr fmt m @ ''...''] w1)))"

definition guard_trips :: "string \<Rightarrow> string \<Rightarrow> bool" where
  \<comment> \<open>the test of \<open>BaseAgent.process\<close> that ends the cycle early\<close>
  "guard_trips name history =
     (let last_lines = split_nl (strip history)
      in last_lines \<noteq> [] \<and> prefix (marker name) (last last_lines))"

definition process ::
  "(string list \<Rightarrow> string option \<Rightarrow> string option) \<Rightarrow> (yaml \<Rightarrow> string) \<Rightarrow>
     (string \<Rightarrow> exn + yaml) \<Rightarrow> yaml \<Rightarrow> string \<Rightarrow> world \<Rightarrow> exn option \<times> world" where
  \<comment> \<open>\<open>BaseAgent.process\<close>.  \<open>generate_response\<close> is the abstract method; \<open>self_name\<close> is
      \<open>self.name\<close> and \<open>log_path\<close> is \<open>self.log_file\<close>.  The result is the exception that
      ended the cycle, if any, and the world it left.\<close>
  "process git fmt generate_response self_name log_path w =
     (let name = fstr fmt self_name;
          w1 = sync_repo git w;
          history = read_log w1
      in if guard_trips name history then (None, w1)
         else
           (let w2 = w1\<lparr>trace := trace w1 @ [Generate history]\<rparr>
            in case generate_response history of
                 Inl e \<Rightarrow> (Some e, w2)
               | Inr response \<Rightarrow>
                   if truthy response
                     then commit_and_push git fmt name log_path response
                            (append_to_log name (fstr fmt response) w2)
                   else (None, w2)))"

section \<open>The responders\<close>

text \<open>
  Each agent class implements \<open>generate_response\<close> over one provider.  The provider call
  is a parameter of the model that returns the value of the call or the exception it
  raised; \<open>str_of\<close> is Python's \<open>str(e)\<close> for an exception.
\<close>

abbreviation dq :: char where
  \<comment> \<open>the double quote\<close>
  "dq \<equiv> CHR 0x22"

definition deep_messages :: "yaml \<Rightarrow> string \<Rightarrow> message list" where
  \<comment> \<open>the messages \<open>DeepAgent.generate_response\<close> sends: the parsed history, or one
      greeting when there is none\<close>
  "deep_messages self_name chat_history =
     (let messages = parse_history self_name chat_history
      in if messages = [] then [\<lparr>role = User, content = ''Hello.''\<rparr>] else messages)"

definition deep_generate_response ::
  "(exn \<Rightarrow> string) \<Rightarrow> (message list \<Rightarrow> exn + yaml) \<Rightarrow> yaml \<Rightarrow> string \<Rightarrow> exn + yaml" where
  \<comment> \<open>\<open>create\<close> is \<open>client.chat.completions.create\<close> followed by the read of
      \<open>choices[0].message.content\<close>; only \<open>APIError\<close> is caught\<close>
  "deep_generate_response str_of create self_name chat_history =
     (case create (deep_messages self_name chat_history) of
        Inr text \<Rightarrow> Inr text
      | Inl (APIError d) \<Rightarrow>
          Inr (YStr (''Error communicating with Deep Agent: '' @ str_of (APIError d)))
      | Inl e \<Rightarrow> Inl e)"

definition gemini_url :: "string \<Rightarrow> string" where
  "gemini_url key =
     ''https://generativelanguage.googleapis.com/v1beta/models/gemini-2.0-flash:generateContent?key=''
       @ key"

definition gemini_prompt :: "string \<Rightarrow> string" where
  "gemini_prompt chat_history =
     ''Here is the meeting log so far:'' @ [nl] @ chat_history @ [nl, nl]
       @ ''Please reply to the latest message if appropriate.''"

definition extract_text :: "yaml \<Rightarrow> exn + yaml" where
  \<comment> \<open>\<open>data["candidates"][0]["content"]["parts"][0]["text"]\<close>\<close>
  "extract_text data =
     and_then (getitem data ''candidates'') (\<lambda>cands.
     and_then (getitem0 cands) (\<lambda>cand.
     and_then (getitem cand ''content'') (\<lambda>body.
     and_then (getitem body ''parts'') (\<lambda>parts.
     and_then (getitem0 parts) (\<lambda>part.
     getitem part ''text'')))))"

definition gemini_generate_response ::
  "(exn \<Rightarrow> string) \<Rightarrow> (yaml \<Rightarrow> string) \<Rightarrow> (string \<Rightarrow> string \<Rightarrow> exn + yaml) \<Rightarrow>
     yaml \<Rightarrow> string \<Rightarrow> yaml" where
  \<comment> \<open>\<open>http_post url prompt\<close> is \<open>httpx.post\<close>, \<open>raise_for_status\<close> and \<open>response.json()\<close>;
      the rest of the payload is constant\<close>
  "gemini_generate_response str_of fmt http_post api_key chat_history =
     (if \<not> truthy api_key then YStr ''Error: Missing GEMINI_API_KEY''
      else
        (case http_post (gemini_url (fstr fmt api_key)) (gemini_prompt chat_history) of
           Inl e \<Rightarrow> YStr (''Error: '' @ str_of e)
         | Inr data \<Rightarrow>
             (case extract_text data of
                Inr text \<Rightarrow> text
              | Inl (KeyError k) \<Rightarrow> YStr ''Error parsing response.''
              | Inl IndexError \<Rightarrow> YStr ''Error parsing response.''
              | Inl e \<Rightarrow> YStr (''Error: '' @ str_of e))))"

definition jules_prompt :: "string \<Rightarrow> string" where
  "jules_prompt chat_history =
     ''You are Jules, a software engineering agent.'' @ [nl]
       @ ''You are communicating via a shared log file.'' @ [nl]
       @ ''Below is the history of the conversation:'' @ [nl, nl]
       @ chat_history @ [nl, nl]
       @ ''Please provide your response as Jules. Do not prefix with '' @ [dq]
       @ ''**Jules**: '' @ [dq] @ '' as that is handled by the system.'' @ [nl]
       @ ''If the last message was from you, or if there is nothing relevant to add, ''
       @ ''you can reply with '' @ [dq] @ ''[NO REPLY]'' @ [dq] @ '' to skip.'' @ [nl]"

definition jules_generate_response ::
  "(exn \<Rightarrow> string) \<Rightarrow> (string \<Rightarrow> exn + string) \<Rightarrow> string \<Rightarrow> yaml" where
  \<comment> \<open>\<open>generate_content prompt\<close> is \<open>self.model.generate_content(prompt)\<close> followed by
      the read of \<open>response.text\<close>\<close>
  "jules_generate_response str_of generate_content chat_history =
     (case generate_content (jules_prompt chat_history) of
        Inl e \<Rightarrow> YStr (''Error: '' @ str_of e)
      | Inr text \<Rightarrow>
          (let text = strip text
           in if text = ''[NO REPLY]'' then YStr [] else YStr text))"

section \<open>Configuration and construction\<close>

fun resolve_env_vars :: "(string \<rightharpoonup> string) \<Rightarrow> yaml \<Rightarrow> yaml" where
  \<comment> \<open>\<open>BaseAgent._resolve_env_vars\<close>; \<open>getenv\<close> is \<open>os.getenv\<close>.  The name of the variable
      is \<open>config.split("/", 1)[1]\<close>, the text after the first slash, and the test before it
      makes sure that there is a slash.\<close>
  "resolve_env_vars getenv (YDict kvs) =
     YDict (map (\<lambda>kv. (fst kv, resolve_env_vars getenv (snd kv))) kvs)"
| "resolve_env_vars getenv (YList xs) = YList (map (resolve_env_vars getenv) xs)"
| "resolve_env_vars getenv (YStr s) =
     (if prefix ''os.environ/'' s
        then (case getenv (tl (dropWhile (\<lambda>c. c \<noteq> CHR ''/'') s)) of
                None \<Rightarrow> YNone
              | Some v \<Rightarrow> YStr v)
      else YStr s)"
| "resolve_env_vars getenv v = v"

datatype step = Key string | Index nat

fun value_at :: "yaml \<Rightarrow> step list \<Rightarrow> yaml option" where
  \<comment> \<open>the value found in a configuration by following keys and list positions\<close>
  "value_at v [] = Some v"
| "value_at (YDict kvs) (Key k # p) =
     (case map_of kvs k of None \<Rightarrow> None | Some v \<Rightarrow> value_at v p)"
| "value_at (YList xs) (Index i # p) =
     (if i < length xs then value_at (xs ! i) p else None)"
| "value_at v (st # p) = None"

definition load_config ::
  "(string \<Rightarrow> exn + yaml) \<Rightarrow> (string \<rightharpoonup> string) \<Rightarrow> string option \<Rightarrow> exn + yaml" where
  \<comment> \<open>\<open>BaseAgent._load_config\<close>; \<open>config_text\<close> is the content of \<open>agents/config.yaml\<close>,
      \<open>None\<close> when the file does not exist\<close>
  "load_config safe_load getenv config_text =
     (case config_text of
        None \<Rightarrow> Inl FileNotFoundError
      | Some text \<Rightarrow> and_then (safe_load text) (\<lambda>c. Inr (resolve_env_vars getenv c)))"

record base_agent =
  agent_id :: string
  config :: yaml
  agent_config :: yaml
  name :: yaml
  log_file :: string

definition base_init ::
  "(string \<Rightarrow> exn + yaml) \<Rightarrow> (string \<rightharpoonup> string) \<Rightarrow> string option \<Rightarrow> string \<Rightarrow>
     exn + base_agent" where
  \<comment> \<open>\<open>BaseAgent.__init__\<close>; joining the root directory with a value that is not a string
      is a \<open>TypeError\<close>\<close>
  "base_init safe_load getenv config_text aid =
     and_then (load_config safe_load getenv config_text) (\<lambda>cfg.
     and_then (getitem cfg ''agents'') (\<lambda>agents.
     and_then (dict_get agents aid (YDict [])) (\<lambda>acfg.
     and_then (dict_get acfg ''name'' (YStr aid)) (\<lambda>nm.
     and_then (getitem cfg ''communication'') (\<lambda>comm.
     and_then (getitem comm ''log_file'') (\<lambda>lf.
       (case lf of
          YStr p \<Rightarrow>
            Inr \<lparr>agent_id = aid, config = cfg, agent_config = acfg, name = nm, log_file = p\<rparr>
        | _ \<Rightarrow> Inl TypeError)))))))"

record deep_agent = base_agent +
  client_key :: yaml

record gemini_raw = base_agent +
  api_key :: yaml

record jules = base_agent +
  genai_configured :: bool

definition deep_init ::
  "(string \<Rightarrow> exn + yaml) \<Rightarrow> (string \<rightharpoonup> string) \<Rightarrow> (yaml \<Rightarrow> exn option) \<Rightarrow>
     string option \<Rightarrow> exn + deep_agent" where
  \<comment> \<open>\<open>DeepAgent.__init__\<close>; \<open>new_client key\<close> is the exception, if any, that the
      constructor \<open>OpenAI(base_url=..., api_key=key)\<close> raises\<close>
  "deep_init safe_load getenv new_client config_text =
     and_then (base_init safe_load getenv config_text ''deep_agent'') (\<lambda>b.
     and_then (getitem (agent_config b) ''api_key'') (\<lambda>key.
       (case new_client key of
          Some e \<Rightarrow> Inl e
        | None \<Rightarrow> Inr (base_agent.extend b \<lparr>client_key = key\<rparr>))))"

definition gemini_init ::
  "(string \<Rightarrow> exn + yaml) \<Rightarrow> (string \<rightharpoonup> string) \<Rightarrow> string option \<Rightarrow> exn + gemini_raw" where
  \<comment> \<open>\<open>GeminiRaw.__init__\<close>\<close>
  "gemini_init safe_load getenv config_text =
     and_then (base_init safe_load getenv config_text ''gemini'') (\<lambda>b.
     and_then (dict_get (agent_config b) ''api_key'' YNone) (\<lambda>key.
       Inr (base_agent.extend b \<lparr>api_key = key\<rparr>)))"

definition jules_init ::
  "(string \<Rightarrow> exn + yaml) \<Rightarrow> (string \<rightharpoonup> string) \<Rightarrow> string option \<Rightarrow> exn + jules" where
  \<comment> \<open>\<open>Jules.__init__\<close>: without a key a warning is logged and \<open>genai.configure\<close> is
      not called; the model object is created either way\<close>
  "jules_init safe_load getenv config_text =
     and_then (base_init safe_load getenv config_text ''jules'') (\<lambda>b.
     and_then (dict_get (agent_config b) ''api_key'' YNone) (\<lambda>key.
       Inr (base_agent.extend b \<lparr>genai_configured = truthy key\<rparr>)))"

text \<open>The three entry points: \<open>agent = Class(); agent.process()\<close>.\<close>

definition deep_main ::
  "(string \<Rightarrow> exn + yaml) \<Rightarrow> (string \<rightharpoonup> string) \<Rightarrow> (yaml \<Rightarrow> exn option) \<Rightarrow>
     string option \<Rightarrow> (string list \<Rightarrow> string option \<Rightarrow> string option) \<Rightarrow> (yaml \<Rightarrow> string) \<Rightarrow>
     (exn \<Rightarrow> string) \<Rightarrow> (message list \<Rightarrow> exn + yaml) \<Rightarrow> world \<Rightarrow> exn option \<times> world" where
  "deep_main safe_load getenv new_client config_text git fmt str_of create w =
     (case deep_init safe_load getenv new_client config_text of
        Inl e \<Rightarrow> (Some e, w)
      | Inr a \<Rightarrow>
          process git fmt (deep_generate_response str_of create (name a))
            (name a) (log_file a) w)"

definition gemini_main ::
  "(string \<Rightarrow> exn + yaml) \<Rightarrow> (string \<rightharpoonup> string) \<Rightarrow> string option \<Rightarrow>
     (string list \<Rightarrow> string option \<Rightarrow> string option) \<Rightarrow> (yaml \<Rightarrow> string) \<Rightarrow>
     (exn \<Rightarrow> string) \<Rightarrow> (string \<Rightarrow> string \<Rightarrow> exn + yaml) \<Rightarrow> world \<Rightarrow> exn option \<times> world" where
  "gemini_main safe_load getenv config_text git fmt str_of http_post w =
     (case gemini_init safe_load getenv config_text of
        Inl e \<Rightarrow> (Some e, w)
      | Inr a \<Rightarrow>
          process git fmt
            (\<lambda>h. Inr (gemini_generate_response str_of fmt http_post (api_key a) h))
            (name a) (log_file a) w)"

definition jules_main ::
  "(string \<Rightarrow> exn + yaml) \<Rightarrow> (string \<rightharpoonup> string) \<Rightarrow> string option \<Rightarrow>
     (string list \<Rightarrow> string option \<Rightarrow> string option) \<Rightarrow> (yaml \<Rightarrow> string) \<Rightarrow>
     (exn \<Rightarrow> string) \<Rightarrow> (string \<Rightarrow> exn + string) \<Rightarrow> world \<Rightarrow> exn option \<times> world" where
  "jules_main safe_load getenv config_text git fmt str_of generate_content w =
     (case jules_init safe_load getenv config_text of
        Inl e \<Rightarrow> (Some e, w)
      | Inr a \<Rightarrow>
          process git fmt
            (\<lambda>h. Inr (jules_generate_response str_of generate_content h))
            (name a) (log_file a) w)"

section \<open>The mailbox layer: artifacts\<close>

text \<open>
  A path is the list of its components below the root of the file system.  Joining
  follows \<open>pathlib\<close>: an absolute right operand replaces the path, empty components and
  \<open>.\<close> are dropped, and \<open>..\<close> is kept as a component.
\<close>

type_synonym path = "string list"

definition path_join :: "path \<Rightarrow> string \<Rightarrow> path" where
  "path_join p s =
     (let cs = filter (\<lambda>c. c \<noteq> [] \<and> c \<noteq> ''.'') (split_on (CHR ''/'') s)
      in if prefix ''/'' s then cs else p @ cs)"

definition path_str :: "path \<Rightarrow> string" where
  "path_str p = (if p = [] then ''/'' else concat (map (\<lambda>c. CHR ''/'' # c) p))"

record fs =
  dirs :: "path set"
  files :: "path \<rightharpoonup> string"

fun mkdir_from :: "fs \<Rightarrow> path \<Rightarrow> string list \<Rightarrow> exn + fs" where
  \<comment> \<open>creates the directories \<open>base/c1\<close>, \<open>base/c1/c2\<close>, ... that are missing; a file in
      the way is an error\<close>
  "mkdir_from f base [] = Inr f"
| "mkdir_from f base (c # cs) =
     (if files f (base @ [c]) \<noteq> None
        then Inl (if cs = [] then FileExistsError else NotADirectoryError)
      else mkdir_from (f\<lparr>dirs := insert (base @ [c]) (dirs f)\<rparr>) (base @ [c]) cs)"

definition mkdir_parents :: "fs \<Rightarrow> path \<Rightarrow> exn + fs" where
  \<comment> \<open>\<open>p.mkdir(parents=True, exist_ok=True)\<close>\<close>
  "mkdir_parents f p = mkdir_from f [] p"

definition write_text :: "fs \<Rightarrow> path \<Rightarrow> string \<Rightarrow> exn + fs" where
  \<comment> \<open>\<open>p.write_text(text)\<close>: the file is created, or truncated and written again\<close>
  "write_text f p text =
     (if p = [] \<or> p \<in> dirs f then Inl IsADirectoryError
      else if \<exists>q \<in> set (butlast (prefixes p)). files f q \<noteq> None then Inl NotADirectoryError
      else if butlast p \<noteq> [] \<and> butlast p \<notin> dirs f then Inl FileNotFoundError
      else Inr (f\<lparr>files := (files f)(p \<mapsto> text)\<rparr>))"

definition store_artifact :: "path \<Rightarrow> fs \<Rightarrow> string \<Rightarrow> string \<Rightarrow> string \<Rightarrow> exn + fs \<times> string" where
  \<comment> \<open>\<open>store_artifact\<close> of the server; \<open>root\<close> is \<open>ROOT_DIR\<close>\<close>
  "store_artifact root f job_id filename text =
     (let job_artifact_dir = path_join (path_join root ''artifacts'') job_id
      in and_then (mkdir_parents f job_artifact_dir) (\<lambda>f1.
           (let file_path = path_join job_artifact_dir filename
            in and_then (write_text f1 file_path text) (\<lambda>f2.
                 Inr (f2, ''Artifact stored: '' @ path_str file_path)))))"

section \<open>Facts about configuration loading\<close>

lemma env_var_name:
  assumes "prefix ''os.environ/'' s"
  shows "tl (dropWhile (\<lambda>c. c \<noteq> CHR ''/'') s) = drop 11 s"
proof -
  from assms obtain t where "s = ''os.environ/'' @ t"
    by (auto elim: prefixE)
  then show ?thesis by simp
qed

lemma map_of_resolved:
  "map_of (map (\<lambda>kv. (fst kv, f (snd kv))) kvs) k = map_option f (map_of kvs k)"
  by (induction kvs) auto

lemma resolve_at:
  "value_at cfg p = Some (YStr s) \<Longrightarrow> prefix ''os.environ/'' s \<Longrightarrow>
   value_at (resolve_env_vars getenv cfg) p =
     Some (case getenv (drop 11 s) of None \<Rightarrow> YNone | Some v \<Rightarrow> YStr v)"
proof (induction cfg p rule: value_at.induct)
  case (1 v)
  then show ?case by (simp add: env_var_name)
next
  case (2 kvs k p)
  then show ?case
    by (auto simp: map_of_resolved split: option.splits)
next
  case (3 xs i p)
  then show ?case by (auto split: if_splits)
qed simp_all

text \<open>
  C10.  Wherever a loaded configuration holds a string that begins with \<open>os.environ/\<close>,
  at any depth of dictionaries and lists, loading succeeds and the resolved configuration
  holds at the same place the value of the environment variable named after the slash,
  or \<open>None\<close> when the variable is unset; the placeholder is not kept.
\<close>

theorem placeholder_resolved:
  assumes "safe_load text = Inr cfg"
    and "value_at cfg p = Some (YStr s)"
    and "prefix ''os.environ/'' s"
  shows "load_config safe_load getenv (Some text) = Inr (resolve_env_vars getenv cfg)
    \<and> value_at (resolve_env_vars getenv cfg) p =
        Some (case getenv (drop 11 s) of None \<Rightarrow> YNone | Some v \<Rightarrow> YStr v)"
  using assms by (simp add: load_config_def and_then_def resolve_at)

theorem placeholder_resolved_witness:
  "value_at (YDict [(''agents'', YDict [(''gemini'', YDict [(''api_key'', YStr ''os.environ/GEMINI_API_KEY'')])])])
      [Key ''agents'', Key ''gemini'', Key ''api_key''] = Some (YStr ''os.environ/GEMINI_API_KEY'')
   \<and> prefix ''os.environ/'' ''os.environ/GEMINI_API_KEY''
   \<and> value_at (resolve_env_vars [''GEMINI_API_KEY'' \<mapsto> ''k-123'']
         (YDict [(''agents'', YDict [(''gemini'', YDict [(''api_key'', YStr ''os.environ/GEMINI_API_KEY'')])])]))
      [Key ''agents'', Key ''gemini'', Key ''api_key''] = Some (YStr ''k-123'')
   \<and> value_at (resolve_env_vars Map.empty
         (YDict [(''agents'', YDict [(''gemini'', YDict [(''api_key'', YStr ''os.environ/GEMINI_API_KEY'')])])]))
      [Key ''agents'', Key ''gemini'', Key ''api_key''] = Some YNone"
  using placeholder_resolved [of "\<lambda>t. Inr (YDict [(''agents'', YDict [(''gemini'', YDict [(''api_key'', YStr ''os.environ/GEMINI_API_KEY'')])])])"
      "[]" "YDict [(''agents'', YDict [(''gemini'', YDict [(''api_key'', YStr ''os.environ/GEMINI_API_KEY'')])])]"
      "[Key ''agents'', Key ''gemini'', Key ''api_key'']" "''os.environ/GEMINI_API_KEY''"
      "[''GEMINI_API_KEY'' \<mapsto> ''k-123'']"]
    placeholder_resolved [of "\<lambda>t. Inr (YDict [(''agents'', YDict [(''gemini'', YDict [(''api_key'', YStr ''os.environ/GEMINI_API_KEY'')])])])"
      "[]" "YDict [(''agents'', YDict [(''gemini'', YDict [(''api_key'', YStr ''os.environ/GEMINI_API_KEY'')])])]"
      "[Key ''agents'', Key ''gemini'', Key ''api_key'']" "''os.environ/GEMINI_API_KEY''"
      "Map.empty"]
  by simp

section \<open>The scenarios of the turn parser\<close>

text \<open>
  C7.  The two-turn log parses, for the agent named Bob, into the message of role user
  with content \<open>Hi\<close> followed by the message of role assistant with content
  \<open>Hello back\<close>; the marker lines of the log carry the speakers Alice and Bob in that
  order; the guard trips for Bob and does not trip for Alice.
\<close>

theorem two_turn_scenario:
  "parse_history (YStr ''Bob'')
     ([nl, nl] @ ''**Alice**: Hi'' @ [nl, nl, nl] @ ''**Bob**: Hello back'' @ [nl])
     = [\<lparr>role = User, content = ''Hi''\<rparr>, \<lparr>role = Assistant, content = ''Hello back''\<rparr>]
   \<and> List.map_filter re_match
       (split_nl ([nl, nl] @ ''**Alice**: Hi'' @ [nl, nl, nl] @ ''**Bob**: Hello back'' @ [nl]))
     = [(''Alice'', ''Hi''), (''Bob'', ''Hello back'')]
   \<and> guard_trips ''Bob''
       ([nl, nl] @ ''**Alice**: Hi'' @ [nl, nl, nl] @ ''**Bob**: Hello back'' @ [nl])
   \<and> \<not> guard_trips ''Alice''
       ([nl, nl] @ ''**Alice**: Hi'' @ [nl, nl, nl] @ ''**Bob**: Hello back'' @ [nl])"
  by (simp add: parse_history_def parse_step_def flush_def strip_def lstrip_def rstrip_def
      is_space_def re_match_def guard_trips_def marker_def List.map_filter_def role_of_def)

text \<open>
  C8.  The empty log parses into no message; DeepAgent then sends exactly one message,
  the greeting \<open>Hello.\<close> of role user, and when the provider answers that request the
  responder returns the answer.
\<close>

theorem empty_log_seeded:
  "parse_history self_name [] = []
   \<and> deep_messages self_name [] = [\<lparr>role = User, content = ''Hello.''\<rparr>]
   \<and> deep_generate_response str_of (\<lambda>ms. Inr (answer ms)) self_name []
       = Inr (answer [\<lparr>role = User, content = ''Hello.''\<rparr>])"
  by (simp add: deep_generate_response_def deep_messages_def parse_history_def parse_step_def
      flush_def strip_def lstrip_def rstrip_def)

section \<open>Artifacts of the mailbox layer\<close>

text \<open>
  C9.  Storing \<open>report.txt\<close> for job \<open>job1\<close> twice, first with the text \<open>first\<close> and
  then with the text \<open>second\<close>, succeeds both times and leaves the artifact with the
  second text: the stored artifact is overwritten.
\<close>

theorem store_artifact_overwrites:
  "and_then (store_artifact [''srv''] \<lparr>dirs = {}, files = Map.empty\<rparr> ''job1'' ''report.txt'' ''first'')
     (\<lambda>r1. and_then (store_artifact [''srv''] (fst r1) ''job1'' ''report.txt'' ''second'')
        (\<lambda>r2. Inr (files (fst r1) [''srv'', ''artifacts'', ''job1'', ''report.txt''],
                   files (fst r2) [''srv'', ''artifacts'', ''job1'', ''report.txt''])))
   = Inr (Some ''first'', Some ''second'')"
  by (simp add: store_artifact_def and_then_def mkdir_parents_def write_text_def path_join_def
      Let_def)

section \<open>Facts about strings and lines\<close>

lemma split_on_nonempty: "split_on c s \<noteq> []"
  by (induction s) (auto split: list.splits)

lemma split_on_append: "split_on c (a @ c # b) = split_on c a @ split_on c b"
proof (induction a)
  case Nil
  show ?case by simp
next
  case (Cons x a)
  show ?case
  proof (cases "x = c")
    case True
    with Cons show ?thesis by simp
  next
    case False
    obtain l ls where "split_on c a = l # ls"
      using split_on_nonempty [of c a] by (cases "split_on c a") auto
    with False Cons show ?thesis by simp
  qed
qed

lemma split_on_no_sep: "c \<notin> set s \<Longrightarrow> split_on c s = [s]"
  by (induction s) auto

lemma split_on_pieces: "l \<in> set (split_on c s) \<Longrightarrow> c \<notin> set l"
  by (induction s arbitrary: l) (auto split: if_splits list.splits)

lemma join_nl_Cons: "join_nl (y # ys) = y @ concat (map ((#) nl) ys)"
  by (induction ys arbitrary: y) auto

lemma join_nl_append:
  "join_nl (xs @ y # ys) = concat (map (\<lambda>l. l @ [nl]) xs) @ y @ concat (map ((#) nl) ys)"
proof (induction xs)
  case Nil
  show ?case by (simp add: join_nl_Cons)
next
  case (Cons x xs)
  then show ?case by (cases xs) (auto simp: join_nl_Cons)
qed

lemma join_split_nl: "join_nl (split_nl s) = s"
proof (induction s)
  case Nil
  show ?case by simp
next
  case (Cons x s)
  obtain l ls where "split_nl s = l # ls"
    using split_on_nonempty [of nl s] by (cases "split_nl s") auto
  with Cons show ?case by (auto simp: join_nl_Cons)
qed

lemma strip_empty_iff: "strip s = [] \<longleftrightarrow> (\<forall>c \<in> set s. is_space c)"
proof
  assume "strip s = []"
  then have "\<forall>c \<in> set (dropWhile is_space s). is_space c"
    by (simp add: strip_def rstrip_def lstrip_def dropWhile_eq_Nil_conv)
  then have "dropWhile is_space s = []"
    by (metis hd_dropWhile list.set_sel(1))
  then show "\<forall>c \<in> set s. is_space c"
    by (simp add: dropWhile_eq_Nil_conv)
next
  assume "\<forall>c \<in> set s. is_space c"
  then have "dropWhile is_space s = []"
    by (simp add: dropWhile_eq_Nil_conv)
  then show "strip s = []"
    by (simp only: strip_def rstrip_def lstrip_def rev.simps dropWhile.simps)
qed

lemma dropWhile_stop: "\<not> Q x \<Longrightarrow> dropWhile Q (p @ x # r) = dropWhile Q p @ x # r"
  by (induction p) auto

lemma lstrip_stop: "\<not> is_space x \<Longrightarrow> lstrip (p @ x # r) = lstrip p @ x # r"
  by (simp add: lstrip_def dropWhile_stop)

lemma rstrip_stop: "\<not> is_space x \<Longrightarrow> rstrip (a @ x # b) = a @ x # rstrip b"
  by (simp add: rstrip_def dropWhile_stop)

lemma rstrip_spaces:
  assumes "\<forall>c \<in> set s. is_space c"
  shows "rstrip (a @ s) = rstrip a"
proof -
  have "dropWhile is_space (rev s @ rev a) = dropWhile is_space (rev a)"
    using assms by (intro dropWhile_append2) simp
  then show ?thesis by (simp add: rstrip_def)
qed

lemma set_rstrip: "set (rstrip s) \<subseteq> set s"
  using set_dropWhileD [of _ is_space "rev s"] by (auto simp: rstrip_def)

lemma lines_end: "ls \<noteq> [] \<Longrightarrow> \<exists>q. concat (map (\<lambda>l. l @ [nl]) ls) = q @ [nl]"
  by (induction ls rule: rev_induct) auto

lemma suffix_end:
  assumes "p = [] \<or> (\<exists>q. p = q @ [nl])"
  shows "dropWhile Q p = [] \<or> (\<exists>q. dropWhile Q p = q @ [nl])"
proof (cases "dropWhile Q p = []")
  case True
  then show ?thesis by simp
next
  case False
  then have "p \<noteq> []" by auto
  with assms have "last p = nl" by auto
  moreover have "last p = last (dropWhile Q p)"
    using False by (metis last_appendR takeWhile_dropWhile_id)
  ultimately have "dropWhile Q p = butlast (dropWhile Q p) @ [nl]"
    using False by (metis append_butlast_last_id)
  then show ?thesis by blast
qed

lemma last_line:
  assumes "p = [] \<or> (\<exists>q. p = q @ [nl])" and "nl \<notin> set l"
  shows "last (split_nl (p @ l)) = l"
proof (cases "p = []")
  case True
  with assms(2) show ?thesis by (simp add: split_on_no_sep)
next
  case False
  with assms(1) obtain q where "p = q @ [nl]" by blast
  then have "split_nl (p @ l) = split_nl q @ [l]"
    using split_on_append [of nl q l] assms(2) by (simp add: split_on_no_sep)
  then show ?thesis by simp
qed

lemma star_not_space: "\<not> is_space (CHR ''*'')"
  by (simp add: is_space_def)

lemma nl_space: "is_space nl"
  by (simp add: is_space_def)

lemma guard_from_last_line:
  assumes ne: "filter (\<lambda>l. strip l \<noteq> []) (split_nl h) \<noteq> []"
    and pre: "prefix (marker n) (last (filter (\<lambda>l. strip l \<noteq> []) (split_nl h)))"
  shows "guard_trips n h"
proof -
  let ?P = "\<lambda>l. strip l \<noteq> []"
  from ne have "\<exists>l \<in> set (split_nl h). ?P l"
    by (simp add: filter_empty_conv)
  then obtain ls1 L ls2 where sp: "split_nl h = ls1 @ L # ls2"
    and L: "?P L" and blank: "\<forall>l \<in> set ls2. \<not> ?P l"
    using split_list_last_prop [of "split_nl h" ?P] by blast
  have "filter ?P ls2 = []"
    using blank by (simp add: filter_empty_conv)
  with sp L have "last (filter ?P (split_nl h)) = L" by simp
  with pre have "prefix (marker n) L" by simp
  then obtain L' where L': "L = marker n @ L'"
    by (rule prefixE)
  have "L \<in> set (split_nl h)" using sp by simp
  then have noL: "nl \<notin> set L"
    by (rule split_on_pieces)
  define p where "p = concat (map (\<lambda>l. l @ [nl]) ls1)"
  define s where "s = concat (map ((#) nl) ls2)"
  have "h = join_nl (ls1 @ L # ls2)"
    using join_split_nl [of h] sp by simp
  then have h: "h = p @ L @ s"
    by (simp only: join_nl_append p_def s_def)
  have "\<forall>l \<in> set ls2. \<forall>c \<in> set l. is_space c"
    using blank by (simp add: strip_empty_iff)
  then have sps: "\<forall>c \<in> set s. is_space c"
    by (auto simp: s_def nl_space)
  have pend: "p = [] \<or> (\<exists>q. p = q @ [nl])"
    using lines_end [of ls1] by (cases "ls1 = []") (auto simp: p_def)
  define p' where "p' = lstrip p"
  have p'end: "p' = [] \<or> (\<exists>q. p' = q @ [nl])"
    unfolding p'_def lstrip_def using pend by (rule suffix_end)
  have "h = p @ CHR ''*'' # (CHR ''*'' # n @ ''**'' @ L' @ s)"
    by (simp add: h L' marker_def)
  then have "lstrip h = p' @ CHR ''*'' # (CHR ''*'' # n @ ''**'' @ L' @ s)"
    by (simp only: p'_def lstrip_stop [OF star_not_space])
  then have "lstrip h = (p' @ ''**'' @ n @ ''*'') @ CHR ''*'' # (L' @ s)"
    by simp
  then have "strip h = (p' @ ''**'' @ n @ ''*'') @ CHR ''*'' # rstrip (L' @ s)"
    by (simp only: strip_def rstrip_stop [OF star_not_space])
  also have "rstrip (L' @ s) = rstrip L'"
    using sps by (rule rstrip_spaces)
  finally have st: "strip h = p' @ (marker n @ rstrip L')"
    by (simp add: marker_def)
  have "nl \<notin> set (marker n)"
    using noL by (simp add: L')
  moreover have "nl \<notin> set (rstrip L')"
    using noL set_rstrip [of L'] by (auto simp: L')
  ultimately have "nl \<notin> set (marker n @ rstrip L')"
    by simp
  with p'end have "last (split_nl (strip h)) = marker n @ rstrip L'"
    unfolding st by (rule last_line)
  then show ?thesis
    by (simp add: guard_trips_def split_on_nonempty)
qed

section \<open>The self-reply guard\<close>

lemma sync_trace:
  "trace (sync_repo git w) =
     trace w @ [Git [''stash''], Git [''pull'', ''--rebase''], Git [''stash'', ''pop'']]"
  by (simp add: sync_repo_def run_git_command_def)

text \<open>
  C2.  When the last line of the log that is not blank begins with the marker of the
  agent's name, the cycle ends after the guard: it returns the world as the
  synchronisation left it, so the log is not appended to, and the trace holds the three
  git commands of the synchronisation and nothing else, no call of the responder among
  them.
\<close>

theorem self_reply_guard:
  assumes "filter (\<lambda>l. strip l \<noteq> []) (split_nl (read_log (sync_repo git w))) \<noteq> []"
    and "prefix (marker (fstr fmt self_name))
           (last (filter (\<lambda>l. strip l \<noteq> []) (split_nl (read_log (sync_repo git w)))))"
  shows "process git fmt generate_response self_name log_path w = (None, sync_repo git w)
    \<and> trace (sync_repo git w) =
        trace w @ [Git [''stash''], Git [''pull'', ''--rebase''], Git [''stash'', ''pop'']]"
proof -
  have "guard_trips (fstr fmt self_name) (read_log (sync_repo git w))"
    using assms by (rule guard_from_last_line)
  then show ?thesis
    by (simp add: process_def sync_trace)
qed

theorem self_reply_guard_witness:
  "filter (\<lambda>l. strip l \<noteq> [])
      (split_nl (read_log (sync_repo (\<lambda>args f. f)
         \<lparr>log = Some ([nl, nl] @ ''**Bob**: hi'' @ [nl]), trace = []\<rparr>))) = [''**Bob**: hi'']
   \<and> prefix (marker (fstr (\<lambda>v. []) (YStr ''Bob''))) ''**Bob**: hi''
   \<and> process (\<lambda>args f. f) (\<lambda>v. []) (\<lambda>h. Inr (YStr ''again'')) (YStr ''Bob'') ''meeting_log.md''
        \<lparr>log = Some ([nl, nl] @ ''**Bob**: hi'' @ [nl]), trace = []\<rparr>
      = (None, \<lparr>log = Some ([nl, nl] @ ''**Bob**: hi'' @ [nl]),
                trace = [Git [''stash''], Git [''pull'', ''--rebase''], Git [''stash'', ''pop'']]\<rparr>)"
  using self_reply_guard [of "\<lambda>args f. f"
      "\<lparr>log = Some ([nl, nl] @ ''**Bob**: hi'' @ [nl]), trace = []\<rparr>"
      "\<lambda>v. []" "YStr ''Bob''" "\<lambda>h. Inr (YStr ''again'')" "''meeting_log.md''"]
  by (simp add: sync_repo_def run_git_command_def read_log_def strip_def lstrip_def rstrip_def
      is_space_def marker_def)

section \<open>The cycle after the guard\<close>

lemma process_quiet:
  assumes "generate_response (read_log (sync_repo git w)) = Inr (YStr [])"
  shows "process git fmt generate_response self_name log_path w =
     (None, if guard_trips (fstr fmt self_name) (read_log (sync_repo git w)) then sync_repo git w
            else (sync_repo git w)\<lparr>trace := trace (sync_repo git w) @ [Generate (read_log (sync_repo git w))]\<rparr>)"
  using assms by (simp add: process_def Let_def)

text \<open>
  C4.  When the responder returns the empty string, the cycle raises nothing, leaves the
  log file as the synchronisation left it, and its trace holds the three git commands of
  the synchronisation and at most the call of the responder: no entry is appended and
  no add, commit or push is run.  Jules returns the empty string when the text of the
  provider, once stripped, is \<open>[NO REPLY]\<close>.
\<close>

theorem no_reply_sentinel:
  "(generate_response (read_log (sync_repo git w)) = Inr (YStr []) \<longrightarrow>
      fst (process git fmt generate_response self_name log_path w) = None
      \<and> log (snd (process git fmt generate_response self_name log_path w)) = log (sync_repo git w)
      \<and> trace (snd (process git fmt generate_response self_name log_path w)) =
          trace w @ [Git [''stash''], Git [''pull'', ''--rebase''], Git [''stash'', ''pop'']]
            @ (if guard_trips (fstr fmt self_name) (read_log (sync_repo git w)) then []
               else [Generate (read_log (sync_repo git w))]))
   \<and> (generate_content (jules_prompt h) = Inr reply \<and> strip reply = ''[NO REPLY]'' \<longrightarrow>
        jules_generate_response str_of generate_content h = YStr [])"
  by (simp add: process_quiet sync_trace jules_generate_response_def)

theorem no_reply_sentinel_witness:
  "strip '' [NO REPLY] '' = ''[NO REPLY]''
   \<and> jules_generate_response (\<lambda>e. []) (\<lambda>p. Inr '' [NO REPLY] '') ''**Bob**: hi'' = YStr []
   \<and> fst (process (\<lambda>args f. f) (\<lambda>v. [])
        (\<lambda>h. Inr (jules_generate_response (\<lambda>e. []) (\<lambda>p. Inr '' [NO REPLY] '') h))
        (YStr ''Jules'') ''meeting_log.md'' \<lparr>log = Some ''**Bob**: hi'', trace = []\<rparr>) = None
   \<and> snd (process (\<lambda>args f. f) (\<lambda>v. [])
        (\<lambda>h. Inr (jules_generate_response (\<lambda>e. []) (\<lambda>p. Inr '' [NO REPLY] '') h))
        (YStr ''Jules'') ''meeting_log.md'' \<lparr>log = Some ''**Bob**: hi'', trace = []\<rparr>)
      = \<lparr>log = Some ''**Bob**: hi'',
         trace = [Git [''stash''], Git [''pull'', ''--rebase''], Git [''stash'', ''pop''],
                  Generate ''**Bob**: hi'']\<rparr>"
  using no_reply_sentinel [where git = "\<lambda>args f. f" and fmt = "\<lambda>v. []"
      and generate_response = "\<lambda>h. Inr (jules_generate_response (\<lambda>e. []) (\<lambda>p. Inr '' [NO REPLY] '') h)"
      and self_name = "YStr ''Jules''" and log_path = "''meeting_log.md''"
      and w = "\<lparr>log = Some ''**Bob**: hi'', trace = []\<rparr>"
      and generate_content = "\<lambda>p. Inr '' [NO REPLY] ''" and h = "''**Bob**: hi''"
      and reply = "'' [NO REPLY] ''" and str_of = "\<lambda>e. []"]
  by (simp add: sync_repo_def run_git_command_def read_log_def strip_def lstrip_def rstrip_def
      is_space_def marker_def guard_trips_def jules_generate_response_def process_def)





section \<open>Configuration errors and missing credentials\<close>

lemma dict_get_dict: "dict_get v k d = Inr r \<Longrightarrow> \<exists>kvs. v = YDict kvs"
  by (cases v) auto

lemma base_init_section:
  assumes "base_init safe_load getenv config_text aid = Inr b"
  shows "\<exists>kvs. agent_config b = YDict kvs"
proof -
  from assms obtain acfg nm where "dict_get acfg ''name'' (YStr aid) = Inr nm"
    and "agent_config b = acfg"
    by (auto simp: base_init_def and_then_def split: sum.splits yaml.splits)
  then show ?thesis using dict_get_dict by blast
qed

text \<open>
  C6, as the code has it.  Whatever makes \<open>BaseAgent.__init__\<close> raise (no configuration
  file, a file that does not load, a configuration without \<open>agents\<close>, and so on) ends
  the entry point of each agent with that exception and leaves the world untouched: no
  git command, no read, no responder call, no append.  A missing credential does so for
  DeepAgent only, when its section has no \<open>api_key\<close> or the client constructor rejects
  the key; GeminiRaw and Jules are constructed whenever the base agent is.
\<close>

theorem config_errors_fatal:
  "(base_init safe_load getenv config_text ''deep_agent'' = Inl e \<longrightarrow>
      deep_main safe_load getenv new_client config_text git fmt str_of create w = (Some e, w))
   \<and> (base_init safe_load getenv config_text ''gemini'' = Inl e \<longrightarrow>
      gemini_main safe_load getenv config_text git fmt str_of http_post w = (Some e, w))
   \<and> (base_init safe_load getenv config_text ''jules'' = Inl e \<longrightarrow>
      jules_main safe_load getenv config_text git fmt str_of generate_content w = (Some e, w))
   \<and> base_init safe_load getenv None aid = Inl FileNotFoundError
   \<and> (safe_load txt = Inl e \<longrightarrow> base_init safe_load getenv (Some txt) aid = Inl e)
   \<and> (safe_load txt = Inr cfg \<and> getitem (resolve_env_vars getenv cfg) ''agents'' = Inl e \<longrightarrow>
        base_init safe_load getenv (Some txt) aid = Inl e)
   \<and> (base_init safe_load getenv config_text ''deep_agent'' = Inr b
        \<and> getitem (agent_config b) ''api_key'' = Inl e \<longrightarrow>
      deep_main safe_load getenv new_client config_text git fmt str_of create w = (Some e, w))
   \<and> (base_init safe_load getenv config_text ''deep_agent'' = Inr b
        \<and> getitem (agent_config b) ''api_key'' = Inr key \<and> new_client key = Some e \<longrightarrow>
      deep_main safe_load getenv new_client config_text git fmt str_of create w = (Some e, w))
   \<and> (base_init safe_load getenv config_text ''gemini'' = Inr b \<longrightarrow>
        (\<exists>a. gemini_init safe_load getenv config_text = Inr a))
   \<and> (base_init safe_load getenv config_text ''jules'' = Inr b \<longrightarrow>
        (\<exists>a. jules_init safe_load getenv config_text = Inr a))"
proof -
  have 1: "base_init safe_load getenv config_text ''deep_agent'' = Inl e \<longrightarrow>
      deep_main safe_load getenv new_client config_text git fmt str_of create w = (Some e, w)"
    by (simp add: deep_main_def deep_init_def and_then_def)
  have 2: "base_init safe_load getenv config_text ''gemini'' = Inl e \<longrightarrow>
      gemini_main safe_load getenv config_text git fmt str_of http_post w = (Some e, w)"
    by (simp add: gemini_main_def gemini_init_def and_then_def)
  have 3: "base_init safe_load getenv config_text ''jules'' = Inl e \<longrightarrow>
      jules_main safe_load getenv config_text git fmt str_of generate_content w = (Some e, w)"
    by (simp add: jules_main_def jules_init_def and_then_def)
  have 4: "base_init safe_load getenv None aid = Inl FileNotFoundError"
    by (simp add: base_init_def load_config_def and_then_def)
  have 5: "safe_load txt = Inl e \<longrightarrow> base_init safe_load getenv (Some txt) aid = Inl e"
    by (simp add: base_init_def load_config_def and_then_def)
  have 6: "safe_load txt = Inr cfg \<and> getitem (resolve_env_vars getenv cfg) ''agents'' = Inl e \<longrightarrow>
        base_init safe_load getenv (Some txt) aid = Inl e"
    by (simp add: base_init_def load_config_def and_then_def)
  have 7: "base_init safe_load getenv config_text ''deep_agent'' = Inr b
        \<and> getitem (agent_config b) ''api_key'' = Inl e \<longrightarrow>
      deep_main safe_load getenv new_client config_text git fmt str_of create w = (Some e, w)"
    by (simp add: deep_main_def deep_init_def and_then_def)
  have 8: "base_init safe_load getenv config_text ''deep_agent'' = Inr b
        \<and> getitem (agent_config b) ''api_key'' = Inr key \<and> new_client key = Some e \<longrightarrow>
      deep_main safe_load getenv new_client config_text git fmt str_of create w = (Some e, w)"
    by (simp add: deep_main_def deep_init_def and_then_def)
  have 9: "base_init safe_load getenv config_text ''gemini'' = Inr b \<longrightarrow>
        (\<exists>a. gemini_init safe_load getenv config_text = Inr a)"
    using base_init_section [of safe_load getenv config_text "''gemini''" b]
    by (auto simp: gemini_init_def and_then_def)
  have 10: "base_init safe_load getenv config_text ''jules'' = Inr b \<longrightarrow>
        (\<exists>a. jules_init safe_load getenv config_text = Inr a)"
    using base_init_section [of safe_load getenv config_text "''jules''" b]
    by (auto simp: jules_init_def and_then_def)
  from 1 2 3 4 5 6 7 8 9 10 show ?thesis by blast
qed

theorem config_errors_fatal_witness:
  "base_init (\<lambda>t. Inl (YAMLError ''bad'')) Map.empty None ''deep_agent'' = Inl FileNotFoundError
   \<and> deep_main (\<lambda>t. Inl (YAMLError ''bad'')) Map.empty (\<lambda>k. None) None (\<lambda>args f. f) (\<lambda>v. [])
        (\<lambda>e. []) (\<lambda>ms. Inr YNone) \<lparr>log = Some ''**Bob**: hi'', trace = []\<rparr>
      = (Some FileNotFoundError, \<lparr>log = Some ''**Bob**: hi'', trace = []\<rparr>)
   \<and> gemini_main (\<lambda>t. Inl (YAMLError ''bad'')) Map.empty None (\<lambda>args f. f) (\<lambda>v. [])
        (\<lambda>e. []) (\<lambda>u p. Inr YNone) \<lparr>log = Some ''**Bob**: hi'', trace = []\<rparr>
      = (Some FileNotFoundError, \<lparr>log = Some ''**Bob**: hi'', trace = []\<rparr>)
   \<and> jules_main (\<lambda>t. Inl (YAMLError ''bad'')) Map.empty None (\<lambda>args f. f) (\<lambda>v. [])
        (\<lambda>e. []) (\<lambda>p. Inr []) \<lparr>log = Some ''**Bob**: hi'', trace = []\<rparr>
      = (Some FileNotFoundError, \<lparr>log = Some ''**Bob**: hi'', trace = []\<rparr>)
   \<and> deep_main
        (\<lambda>t. Inr (YDict [(''agents'', YDict [(''deep_agent'', YDict [(''name'', YStr ''Deep'')])]),
               (''communication'', YDict [(''log_file'', YStr ''meeting_log.md'')])]))
        Map.empty (\<lambda>k. None) (Some []) (\<lambda>args f. f) (\<lambda>v. [])
        (\<lambda>e. []) (\<lambda>ms. Inr YNone) \<lparr>log = Some ''**Bob**: hi'', trace = []\<rparr>
      = (Some (KeyError ''api_key''), \<lparr>log = Some ''**Bob**: hi'', trace = []\<rparr>)"
proof -
  let ?w = "\<lparr>log = Some ''**Bob**: hi'', trace = []\<rparr>"
  let ?bad = "\<lambda>t::string. (Inl (YAMLError ''bad'') :: exn + yaml)"
  let ?cfg = "YDict [(''agents'', YDict [(''deep_agent'', YDict [(''name'', YStr ''Deep'')])]),
               (''communication'', YDict [(''log_file'', YStr ''meeting_log.md'')])]"
  have missing: "base_init ?bad Map.empty None aid = Inl FileNotFoundError" for aid
    using config_errors_fatal [where safe_load = ?bad and getenv = Map.empty and aid = aid]
    by simp
  have files: "deep_main ?bad Map.empty (\<lambda>k. None) None (\<lambda>args f. f) (\<lambda>v. [])
        (\<lambda>e. []) (\<lambda>ms. Inr YNone) ?w = (Some FileNotFoundError, ?w)
     \<and> gemini_main ?bad Map.empty None (\<lambda>args f. f) (\<lambda>v. [])
        (\<lambda>e. []) (\<lambda>u p. Inr YNone) ?w = (Some FileNotFoundError, ?w)
     \<and> jules_main ?bad Map.empty None (\<lambda>args f. f) (\<lambda>v. [])
        (\<lambda>e. []) (\<lambda>p. Inr []) ?w = (Some FileNotFoundError, ?w)"
    using config_errors_fatal [where safe_load = ?bad and getenv = Map.empty
        and config_text = None and e = FileNotFoundError and new_client = "\<lambda>k. None"
        and git = "\<lambda>args f. f" and fmt = "\<lambda>v. []" and str_of = "\<lambda>e. []"
        and create = "\<lambda>ms. Inr YNone" and http_post = "\<lambda>u p. Inr YNone"
        and generate_content = "\<lambda>p. Inr []" and w = ?w]
      missing
    by simp
  have base: "base_init (\<lambda>t. Inr ?cfg) Map.empty (Some []) ''deep_agent''
      = Inr \<lparr>agent_id = ''deep_agent'', config = ?cfg,
             agent_config = YDict [(''name'', YStr ''Deep'')], name = YStr ''Deep'',
             log_file = ''meeting_log.md''\<rparr>"
    by (simp add: base_init_def load_config_def and_then_def)
  have key: "deep_main (\<lambda>t. Inr ?cfg) Map.empty (\<lambda>k. None) (Some []) (\<lambda>args f. f) (\<lambda>v. [])
        (\<lambda>e. []) (\<lambda>ms. Inr YNone) ?w = (Some (KeyError ''api_key''), ?w)"
    using config_errors_fatal [where safe_load = "\<lambda>t. Inr ?cfg" and getenv = Map.empty
        and config_text = "Some []" and e = "KeyError ''api_key''" and new_client = "\<lambda>k. None"
        and git = "\<lambda>args f. f" and fmt = "\<lambda>v. []" and str_of = "\<lambda>e. []"
        and create = "\<lambda>ms. Inr YNone" and w = ?w
        and b = "\<lparr>agent_id = ''deep_agent'', config = ?cfg,
             agent_config = YDict [(''name'', YStr ''Deep'')], name = YStr ''Deep'',
             log_file = ''meeting_log.md''\<rparr>"]
      base
    by simp
  from missing files key show ?thesis by simp
qed

text \<open>
  An agent section whose key is a placeholder for an unset environment variable:
  GeminiRaw is constructed all the same, its cycle runs and publishes the text
  \<open>Error: Missing GEMINI_API_KEY\<close>; Jules is constructed too, without a configured
  provider.
\<close>

theorem missing_credential_counterexample:
  "getitem (YDict [(''name'', YStr ''Gemini''), (''api_key'', YNone)]) ''api_key'' = Inr YNone
   \<and> gemini_init
        (\<lambda>t. Inr (YDict [(''agents'', YDict [(''gemini'',
                 YDict [(''name'', YStr ''Gemini''), (''api_key'', YStr ''os.environ/GEMINI_API_KEY'')])]),
               (''communication'', YDict [(''log_file'', YStr ''meeting_log.md'')])]))
        Map.empty (Some [])
      = Inr \<lparr>agent_id = ''gemini'',
             config = YDict [(''agents'', YDict [(''gemini'',
                 YDict [(''name'', YStr ''Gemini''), (''api_key'', YNone)])]),
               (''communication'', YDict [(''log_file'', YStr ''meeting_log.md'')])],
             agent_config = YDict [(''name'', YStr ''Gemini''), (''api_key'', YNone)],
             name = YStr ''Gemini'', log_file = ''meeting_log.md'', api_key = YNone\<rparr>
   \<and> gemini_main
        (\<lambda>t. Inr (YDict [(''agents'', YDict [(''gemini'',
                 YDict [(''name'', YStr ''Gemini''), (''api_key'', YStr ''os.environ/GEMINI_API_KEY'')])]),
               (''communication'', YDict [(''log_file'', YStr ''meeting_log.md'')])]))
        Map.empty (Some []) (\<lambda>args f. f) (\<lambda>v. []) (\<lambda>e. []) (\<lambda>u p. Inl (LibraryError []))
        \<lparr>log = None, trace = []\<rparr>
      = (None,
         \<lparr>log = Some ([nl, nl] @ ''**Gemini**: Error: Missing GEMINI_API_KEY'' @ [nl]),
          trace = [Git [''stash''], Git [''pull'', ''--rebase''], Git [''stash'', ''pop''],
                   Generate [],
                   Append ([nl, nl] @ ''**Gemini**: Error: Missing GEMINI_API_KEY'' @ [nl]),
                   Git [''add'', ''meeting_log.md''],
                   Git [''commit'', ''-m'', ''Gemini: Error: Missing GEMINI_API_KEY...''],
                   Git [''push'']]\<rparr>)
   \<and> (case jules_init
        (\<lambda>t. Inr (YDict [(''agents'', YDict [(''jules'', YDict [(''name'', YStr ''Jules'')])]),
               (''communication'', YDict [(''log_file'', YStr ''meeting_log.md'')])]))
        Map.empty (Some []) of Inl e \<Rightarrow> False | Inr a \<Rightarrow> \<not> genai_configured a)"
  by (simp add: gemini_main_def gemini_init_def jules_init_def base_init_def load_config_def
      and_then_def base_agent.extend_def process_def sync_repo_def run_git_command_def
      read_log_def guard_trips_def strip_def lstrip_def rstrip_def marker_def
      gemini_generate_response_def commit_and_push_def append_to_log_def entry_def
      path_name_def Let_def)

section \<open>Writing the log and parsing it back\<close>

lemma read_log_appended:
  "read_log (foldl (\<lambda>w e. append_to_log (fst e) (snd e) w) w es) =
     read_log w @ concat (map (\<lambda>e. entry (fst e) (snd e)) es)"
  by (induction es arbitrary: w) (simp_all add: append_to_log_def read_log_def)

lemma written_concat: "written es = concat (map (\<lambda>e. entry (fst e) (snd e)) es)"
  by (simp add: written_def read_log_appended) (simp add: read_log_def)

lemma nonblank_iff: "strip s \<noteq> [] \<longleftrightarrow> (\<exists>c \<in> set s. \<not> is_space c)"
  by (simp add: strip_empty_iff)

lemma no_early_marker:
  assumes "\<not> sublist ''**'' (c # n)"
  shows "\<not> prefix ''**: '' (c # n @ ''**: '' @ rest)"
proof (cases n)
  case Nil
  then show ?thesis by simp
next
  case (Cons d n')
  have "\<not> prefix ''**'' (c # d # n')"
    using assms Cons by (metis prefix_imp_sublist)
  then show ?thesis using Cons by auto
qed

lemma scan_speaker_marker:
  assumes "\<not> sublist ''**'' n" and "nl \<notin> set n" and "nl \<notin> set rest"
    and "acc \<noteq> [] \<or> n \<noteq> []"
  shows "scan_speaker acc (n @ ''**: '' @ rest) = Some (rev acc @ n, rest)"
  using assms
proof (induction n arbitrary: acc)
  case Nil
  then show ?case by auto
next
  case (Cons c n)
  have "\<not> sublist ''**'' n"
    using Cons.prems(1) by (simp add: sublist_Cons_right)
  then have "scan_speaker (c # acc) (n @ ''**: '' @ rest) = Some (rev (c # acc) @ n, rest)"
    using Cons.prems by (intro Cons.IH) auto
  moreover have "\<not> prefix ''**: '' (c # n @ ''**: '' @ rest)"
    using Cons.prems(1) by (rule no_early_marker)
  moreover have "c \<noteq> nl" using Cons.prems(2) by auto
  ultimately show ?case by simp
qed

lemma re_match_marker:
  assumes "n \<noteq> []" and "\<not> sublist ''**'' n" and "nl \<notin> set n" and "nl \<notin> set rest"
  shows "re_match (marker n @ '': '' @ rest) = Some (n, rest)"
  using scan_speaker_marker [of n rest "[]"] assms
  by (simp add: re_match_def marker_def)

lemma split_on_head:
  "c \<notin> set a \<Longrightarrow> split_on c (a @ m) = (a @ hd (split_on c m)) # tl (split_on c m)"
proof (induction a)
  case Nil
  then show ?case using split_on_nonempty [of c m] by simp
next
  case (Cons x a)
  then show ?case by auto
qed

lemma split_entry:
  assumes "nl \<notin> set n"
  shows "split_nl (entry n m @ r) =
     [] # [] # (marker n @ '': '' @ hd (split_nl m)) # tl (split_nl m) @ split_nl r"
proof -
  have "nl \<notin> set (marker n @ '': '')"
    using assms by (simp add: marker_def)
  then have "split_nl ((marker n @ '': '') @ m) =
      ((marker n @ '': '') @ hd (split_nl m)) # tl (split_nl m)"
    by (rule split_on_head)
  then have "split_nl (((marker n @ '': '') @ m) @ nl # r) =
      ((marker n @ '': '') @ hd (split_nl m)) # tl (split_nl m) @ split_nl r"
    by (simp only: split_on_append append_Cons)
  moreover have "entry n m @ r = nl # nl # ((marker n @ '': '') @ m) @ nl # r"
    by (simp add: entry_def)
  ultimately show ?thesis
    by simp
qed

lemma parse_step_blank: "strip l = [] \<Longrightarrow> parse_step self st l = st"
  by (cases st) (simp add: parse_step_def)

lemma parse_step_more:
  assumes "\<forall>l \<in> set ls. re_match l = None"
  shows "foldl (parse_step self) (msgs, parts, r) ls =
     (msgs, parts @ filter (\<lambda>l. strip l \<noteq> []) ls, r)"
  using assms by (induction ls arbitrary: parts) (simp_all add: parse_step_def)

lemma parse_step_marker:
  assumes "n \<noteq> []" and "\<not> sublist ''**'' n" and "nl \<notin> set n" and "nl \<notin> set rest"
  shows "parse_step self st (marker n @ '': '' @ rest) = (flush st, [rest], role_of self n)"
proof -
  have "\<not> is_space (CHR ''*'')" by (rule star_not_space)
  then have "strip (marker n @ '': '' @ rest) \<noteq> []"
    unfolding nonblank_iff by (auto simp: marker_def)
  then show ?thesis
    using re_match_marker [OF assms] by (cases st) (simp add: parse_step_def)
qed

lemma hd_line: "nl \<notin> set (hd (split_nl m))"
  using split_on_pieces [of "hd (split_nl m)" nl m] split_on_nonempty [of nl m]
  by simp

lemma in_tl: "xs \<noteq> [] \<Longrightarrow> x \<in> set (tl xs) \<Longrightarrow> x \<in> set xs"
  by (cases xs) auto

lemma parse_entries:
  assumes "\<forall>e \<in> set es. fst e \<noteq> [] \<and> \<not> sublist ''**'' (fst e) \<and> nl \<notin> set (fst e)
             \<and> (\<forall>l \<in> set (tl (split_nl (snd e))). re_match l = None)"
  shows "flush (foldl (parse_step self) st (split_nl (concat (map (\<lambda>e. entry (fst e) (snd e)) es))))
     = flush st @ map (\<lambda>e. \<lparr>role = role_of self (fst e),
                content = strip (join_nl (hd (split_nl (snd e))
                  # filter (\<lambda>l. strip l \<noteq> []) (tl (split_nl (snd e)))))\<rparr>) es"
  using assms
proof (induction es arbitrary: st)
  case Nil
  then show ?case by (simp add: parse_step_blank strip_def lstrip_def rstrip_def)
next
  case (Cons e es)
  let ?r = "concat (map (\<lambda>e. entry (fst e) (snd e)) es)"
  let ?ls = "split_nl (snd e)"
  have e: "fst e \<noteq> []" "\<not> sublist ''**'' (fst e)" "nl \<notin> set (fst e)"
    and tl: "\<forall>l \<in> set (tl ?ls). re_match l = None"
    using Cons.prems by auto
  have blank: "strip [] = []" by (simp add: strip_def lstrip_def rstrip_def)
  have lines: "split_nl (concat (map (\<lambda>e. entry (fst e) (snd e)) (e # es))) =
      [] # [] # (marker (fst e) @ '': '' @ hd ?ls) # tl ?ls @ split_nl ?r"
    using split_entry [OF e(3), of "snd e" ?r] by simp
  have "foldl (parse_step self) st (split_nl (concat (map (\<lambda>e. entry (fst e) (snd e)) (e # es))))
    = foldl (parse_step self)
        (foldl (parse_step self) (parse_step self st (marker (fst e) @ '': '' @ hd ?ls)) (tl ?ls))
        (split_nl ?r)"
    unfolding lines by (simp add: parse_step_blank blank)
  also have "parse_step self st (marker (fst e) @ '': '' @ hd ?ls) = (flush st, [hd ?ls], role_of self (fst e))"
    using e hd_line by (rule parse_step_marker)
  also have "foldl (parse_step self) (flush st, [hd ?ls], role_of self (fst e)) (tl ?ls)
    = (flush st, [hd ?ls] @ filter (\<lambda>l. strip l \<noteq> []) (tl ?ls), role_of self (fst e))"
    using tl by (rule parse_step_more)
  finally have "flush (foldl (parse_step self) st (split_nl (concat (map (\<lambda>e. entry (fst e) (snd e)) (e # es)))))
    = flush (flush st, [hd ?ls] @ filter (\<lambda>l. strip l \<noteq> []) (tl ?ls), role_of self (fst e)) @ map (\<lambda>e. \<lparr>role = role_of self (fst e),
                content = strip (join_nl (hd (split_nl (snd e))
                  # filter (\<lambda>l. strip l \<noteq> []) (tl (split_nl (snd e)))))\<rparr>) es"
    using Cons.IH Cons.prems by simp
  then show ?case
    by (simp add: flush_def)
qed

lemma parse_written:
  assumes "\<forall>e \<in> set es. fst e \<noteq> [] \<and> \<not> sublist ''**'' (fst e) \<and> nl \<notin> set (fst e)
             \<and> (\<forall>l \<in> set (tl (split_nl (snd e))). re_match l = None)"
  shows "parse_history self (written es) = map (\<lambda>e. \<lparr>role = role_of self (fst e),
                content = strip (join_nl (hd (split_nl (snd e))
                  # filter (\<lambda>l. strip l \<noteq> []) (tl (split_nl (snd e)))))\<rparr>) es"
  using parse_entries [OF assms, of self "([], [], User)"]
  by (simp add: parse_history_def written_concat flush_def)


lemma lstrip_keep:
  assumes "strip a \<noteq> []"
  shows "lstrip (a @ y) = lstrip a @ y"
proof -
  from assms obtain x where "x \<in> set a" and "\<not> is_space x"
    unfolding nonblank_iff by blast
  then show ?thesis
    unfolding lstrip_def by (rule dropWhile_append1)
qed

lemma rstrip_keep:
  assumes "strip c \<noteq> []"
  shows "rstrip (z @ c) = z @ rstrip c"
proof -
  from assms obtain x where "x \<in> set (rev c)" and "\<not> is_space x"
    unfolding nonblank_iff by auto
  then have "dropWhile is_space (rev c @ rev z) = dropWhile is_space (rev c) @ rev z"
    by (rule dropWhile_append1)
  then show ?thesis by (simp add: rstrip_def)
qed

lemma lstrip_nonblank:
  assumes "strip a \<noteq> []"
  shows "strip (lstrip a) \<noteq> []"
proof -
  from assms have "dropWhile is_space a \<noteq> []"
    unfolding nonblank_iff by (simp add: dropWhile_eq_Nil_conv)
  then have "hd (dropWhile is_space a) \<in> set (dropWhile is_space a)"
    and "\<not> is_space (hd (dropWhile is_space a))"
    by (simp_all add: hd_dropWhile)
  then show ?thesis
    unfolding nonblank_iff lstrip_def by blast
qed

lemma rstrip_nonblank:
  assumes "strip c \<noteq> []"
  shows "strip (rstrip c) \<noteq> []"
proof -
  from assms have ne: "dropWhile is_space (rev c) \<noteq> []"
    unfolding nonblank_iff by (simp add: dropWhile_eq_Nil_conv)
  then have "hd (dropWhile is_space (rev c)) \<in> set (dropWhile is_space (rev c))"
    and "\<not> is_space (hd (dropWhile is_space (rev c)))"
    by (simp_all add: hd_dropWhile)
  then show ?thesis
    unfolding nonblank_iff rstrip_def by auto
qed

lemma set_lstrip: "set (lstrip s) \<subseteq> set s"
  using set_dropWhileD [of _ is_space s] by (auto simp: lstrip_def)

text \<open>
  C1, as the code has it.  Take entries whose speakers are not empty and hold neither a
  newline nor \<open>**\<close>, and whose contents have no line that matches the marker pattern.
  The log written for them is the concatenation of their serialisations, and parsing it
  gives one message for each entry, in order: its role is assistant when the speaker is
  the acting name and user otherwise (the parser returns roles, not speakers), and its
  content is the original content without the blank lines after its first line,
  trimmed.  When no content has a blank line after its first line, each content is the
  original, trimmed.
\<close>

theorem round_trip:
  assumes "\<forall>e \<in> set es. fst e \<noteq> [] \<and> \<not> sublist ''**'' (fst e) \<and> nl \<notin> set (fst e)
             \<and> (\<forall>l \<in> set (split_nl (snd e)). re_match l = None)"
  shows "written es = concat (map (\<lambda>e. [nl, nl] @ ''**'' @ fst e @ ''**: '' @ snd e @ [nl]) es)
    \<and> parse_history self (written es) =
        map (\<lambda>e. \<lparr>role = role_of self (fst e),
                content = strip (join_nl (hd (split_nl (snd e))
                  # filter (\<lambda>l. strip l \<noteq> []) (tl (split_nl (snd e)))))\<rparr>) es
    \<and> ((\<forall>e \<in> set es. \<forall>l \<in> set (tl (split_nl (snd e))). strip l \<noteq> []) \<longrightarrow>
        parse_history self (written es) =
          map (\<lambda>e. \<lparr>role = role_of self (fst e), content = strip (snd e)\<rparr>) es)"
proof -
  have w: "written es = concat (map (\<lambda>e. [nl, nl] @ ''**'' @ fst e @ ''**: '' @ snd e @ [nl]) es)"
    by (simp add: written_concat entry_def marker_def)
  have "\<forall>e \<in> set es. fst e \<noteq> [] \<and> \<not> sublist ''**'' (fst e) \<and> nl \<notin> set (fst e)
             \<and> (\<forall>l \<in> set (tl (split_nl (snd e))). re_match l = None)"
    using assms in_tl [OF split_on_nonempty] by blast
  then have p: "parse_history self (written es) =
        map (\<lambda>e. \<lparr>role = role_of self (fst e),
                content = strip (join_nl (hd (split_nl (snd e))
                  # filter (\<lambda>l. strip l \<noteq> []) (tl (split_nl (snd e)))))\<rparr>) es"
    by (rule parse_written)
  have "parse_history self (written es) =
          map (\<lambda>e. \<lparr>role = role_of self (fst e), content = strip (snd e)\<rparr>) es"
    if nb: "\<forall>e \<in> set es. \<forall>l \<in> set (tl (split_nl (snd e))). strip l \<noteq> []"
  proof -
    have "join_nl (hd (split_nl (snd e)) # filter (\<lambda>l. strip l \<noteq> []) (tl (split_nl (snd e)))) = snd e"
      if "e \<in> set es" for e
    proof -
      have "filter (\<lambda>l. strip l \<noteq> []) (tl (split_nl (snd e))) = tl (split_nl (snd e))"
        using nb that by (simp add: filter_id_conv)
      then show ?thesis
        using join_split_nl [of "snd e"] split_on_nonempty [of nl "snd e"] by simp
    qed
    then show ?thesis unfolding p by simp
  qed
  with w p show ?thesis by blast
qed

theorem round_trip_witness:
  "parse_history (YStr ''Bob'') (written [(''Alice'', ''Hi''), (''Bob'', ''Hello'' @ [nl] @ ''back'')])
     = [\<lparr>role = User, content = ''Hi''\<rparr>, \<lparr>role = Assistant, content = ''Hello'' @ [nl] @ ''back''\<rparr>]"
proof -
  let ?es = "[(''Alice'', ''Hi''), (''Bob'', ''Hello'' @ [nl] @ ''back'')]"
  have h: "\<forall>e \<in> set ?es. fst e \<noteq> [] \<and> \<not> sublist ''**'' (fst e) \<and> nl \<notin> set (fst e)
      \<and> (\<forall>l \<in> set (split_nl (snd e)). re_match l = None)"
    by (simp add: re_match_def sublist_Cons_right)
  have nb: "\<forall>e \<in> set ?es. \<forall>l \<in> set (tl (split_nl (snd e))). strip l \<noteq> []"
    by (simp add: strip_def lstrip_def rstrip_def is_space_def)
  have "parse_history (YStr ''Bob'') (written ?es) =
      map (\<lambda>e. \<lparr>role = role_of (YStr ''Bob'') (fst e), content = strip (snd e)\<rparr>) ?es"
    using round_trip [OF h, of "YStr ''Bob''"] nb by blast
  then show ?thesis
    by (simp add: role_of_def strip_def lstrip_def rstrip_def is_space_def)
qed

text \<open>
  A content with an empty line between two lines meets every condition of the round
  trip, yet the parsed content has lost the empty line and differs from the trimmed
  original.
\<close>

theorem round_trip_counterexample:
  "''Alice'' \<noteq> [] \<and> \<not> sublist ''**'' ''Alice'' \<and> nl \<notin> set ''Alice''
   \<and> filter (\<lambda>l. re_match l \<noteq> None) (split_nl (''a'' @ [nl, nl] @ ''b'')) = []
   \<and> strip (''a'' @ [nl, nl] @ ''b'') = ''a'' @ [nl, nl] @ ''b''
   \<and> parse_history (YStr ''Bob'') (written [(''Alice'', ''a'' @ [nl, nl] @ ''b'')])
       = [\<lparr>role = User, content = ''a'' @ [nl] @ ''b''\<rparr>]
   \<and> parse_history (YStr ''Bob'') (written [(''Alice'', ''a'' @ [nl, nl] @ ''b'')])
       \<noteq> [\<lparr>role = role_of (YStr ''Bob'') ''Alice'', content = strip (''a'' @ [nl, nl] @ ''b'')\<rparr>]"
  by (simp add: written_def append_to_log_def read_log_def entry_def marker_def
      parse_history_def parse_step_def flush_def re_match_def role_of_def
      strip_def lstrip_def rstrip_def is_space_def sublist_Cons_right)

text \<open>
  C5, as the code has it.  An entry whose content has exactly three lines, none of them
  blank, the second and third not matching the marker pattern, parses back into one
  message whose content is those three lines, the first without its leading and the
  last without its trailing whitespace: exactly three lines, the first and the last not
  blank.
\<close>

theorem three_lines_round_trip:
  assumes "n \<noteq> []" and "\<not> sublist ''**'' n" and "nl \<notin> set n"
    and "split_nl m = [a, b, c]"
    and "strip a \<noteq> []" and "strip b \<noteq> []" and "strip c \<noteq> []"
    and "re_match b = None" and "re_match c = None"
  shows "parse_history self (written [(n, m)]) =
      [\<lparr>role = role_of self n, content = lstrip a @ nl # b @ nl # rstrip c\<rparr>]
    \<and> split_nl (lstrip a @ nl # b @ nl # rstrip c) = [lstrip a, b, rstrip c]
    \<and> strip (lstrip a) \<noteq> [] \<and> strip (rstrip c) \<noteq> []"
proof -
  have "\<forall>e \<in> set [(n, m)]. fst e \<noteq> [] \<and> \<not> sublist ''**'' (fst e) \<and> nl \<notin> set (fst e)
             \<and> (\<forall>l \<in> set (tl (split_nl (snd e))). re_match l = None)"
    using assms by simp
  then have "parse_history self (written [(n, m)]) =
      map (\<lambda>e. \<lparr>role = role_of self (fst e),
                content = strip (join_nl (hd (split_nl (snd e))
                  # filter (\<lambda>l. strip l \<noteq> []) (tl (split_nl (snd e)))))\<rparr>) [(n, m)]"
    by (rule parse_written)
  then have p: "parse_history self (written [(n, m)]) =
      [\<lparr>role = role_of self n, content = strip (a @ nl # b @ nl # c)\<rparr>]"
    using assms(4,6,7) by simp
  have "lstrip (a @ nl # b @ nl # c) = lstrip a @ nl # b @ nl # c"
    using assms(5) by (rule lstrip_keep)
  moreover have "rstrip ((lstrip a @ nl # b @ [nl]) @ c) = (lstrip a @ nl # b @ [nl]) @ rstrip c"
    using assms(7) by (rule rstrip_keep)
  ultimately have s: "strip (a @ nl # b @ nl # c) = lstrip a @ nl # b @ nl # rstrip c"
    by (simp add: strip_def)
  have "a \<in> set (split_nl m)" "b \<in> set (split_nl m)" "c \<in> set (split_nl m)"
    using assms(4) by simp_all
  then have "nl \<notin> set a" "nl \<notin> set b" "nl \<notin> set c"
    by (auto dest: split_on_pieces)
  then have "nl \<notin> set (lstrip a)" "nl \<notin> set b" "nl \<notin> set (rstrip c)"
    using set_lstrip [of a] set_rstrip [of c] by auto
  then have l: "split_nl (lstrip a @ nl # b @ nl # rstrip c) = [lstrip a, b, rstrip c]"
    by (simp add: split_on_append split_on_no_sep)
  from p s l lstrip_nonblank [OF assms(5)] rstrip_nonblank [OF assms(7)]
  show ?thesis by simp
qed

theorem three_lines_round_trip_witness:
  "split_nl (''  one'' @ [nl] @ ''two  words'' @ [nl] @ ''three '') = [''  one'', ''two  words'', ''three '']
   \<and> parse_history (YStr ''Bob'')
        (written [(''Alice'', ''  one'' @ [nl] @ ''two  words'' @ [nl] @ ''three '')])
       = [\<lparr>role = User, content = ''one'' @ [nl] @ ''two  words'' @ [nl] @ ''three''\<rparr>]"
proof -
  let ?m = "''  one'' @ [nl] @ ''two  words'' @ [nl] @ ''three ''"
  have l: "split_nl ?m = [''  one'', ''two  words'', ''three '']"
    by simp
  have nb: "strip ''  one'' \<noteq> []" "strip ''two  words'' \<noteq> []" "strip ''three '' \<noteq> []"
    by (simp_all add: strip_def lstrip_def rstrip_def is_space_def)
  have re: "re_match ''two  words'' = None" "re_match ''three '' = None"
    by (simp_all add: re_match_def)
  have n: "''Alice'' \<noteq> []" "\<not> sublist ''**'' ''Alice''" "nl \<notin> set ''Alice''"
    by (simp_all add: sublist_Cons_right)
  from three_lines_round_trip [OF n l nb re, of "YStr ''Bob''"] l
  show ?thesis
    by (simp add: role_of_def lstrip_def rstrip_def is_space_def)
qed

text \<open>
  A content of three lines whose middle line is made of spaces parses back into a
  content of two lines.
\<close>

theorem three_lines_counterexample:
  "split_nl (''one'' @ [nl] @ ''   '' @ [nl] @ ''three'') = [''one'', ''   '', ''three'']
   \<and> filter (\<lambda>l. re_match l \<noteq> None) (split_nl (''one'' @ [nl] @ ''   '' @ [nl] @ ''three'')) = []
   \<and> parse_history (YStr ''Bob'')
        (written [(''Alice'', ''one'' @ [nl] @ ''   '' @ [nl] @ ''three'')])
       = [\<lparr>role = User, content = ''one'' @ [nl] @ ''three''\<rparr>]
   \<and> split_nl (''one'' @ [nl] @ ''three'') = [''one'', ''three'']"
  by (simp add: written_def append_to_log_def read_log_def entry_def marker_def
      parse_history_def parse_step_def flush_def re_match_def role_of_def
      strip_def lstrip_def rstrip_def is_space_def)

end
